theory Spec2Isabelle
  imports Complex_Main "HOL-Library.DAList" "HOL-Library.Multiset"
begin

section \<open>The inventory dashboard component (src/App.tsx)\<close>

text \<open>
  The component keeps one piece of state, \<open>stocks\<close>, issues two kinds of HTTP call through
  axios and renders a list. Its two async functions are suspended at one \<open>await\<close> each, so
  the component is modelled as an event-driven machine: a user click, or the settlement of
  an in-flight call, takes one state to the next. The network and the user are the
  environment: they choose the events.
\<close>

subsection \<open>Numbers\<close>

text \<open>
  A JavaScript number is a double: not a number, an infinity, or a sign with a mantissa
  \<open>m\<close> and an exponent \<open>e\<close>, of value \<open>m * 2^e\<close>. Each double has one representation:
  the mantissa of a normal number has 53 bits, a smaller mantissa goes with the least
  exponent only. The two zeros differ in their sign.
\<close>

datatype ieee = NaN | Infinity bool | Finite bool int int

fun is_double :: "ieee \<Rightarrow> bool" where
  "is_double NaN = True"
| "is_double (Infinity neg) = True"
| "is_double (Finite neg m e) =
     (0 \<le> m \<and> m < 2 ^ 53 \<and> - 1074 \<le> e \<and> e \<le> 971 \<and> (2 ^ 52 \<le> m \<or> e = - 1074))"

typedef number = "{x. is_double x}"
  morphisms ieee_of Number
proof
  show "NaN \<in> {x. is_double x}"
    by simp
qed

setup_lifting type_definition_number

definition pow :: "rat \<Rightarrow> int \<Rightarrow> rat" where
  "pow b n = (if 0 \<le> n then b ^ nat n else 1 / b ^ nat (- n))"

definition magnitude :: "int \<Rightarrow> int \<Rightarrow> rat" where
  "magnitude m e = of_int m * pow 2 e"

fun ieee_value :: "ieee \<Rightarrow> rat option" where
  "ieee_value NaN = None"
| "ieee_value (Infinity neg) = None"
| "ieee_value (Finite neg m e) = Some (if neg then - magnitude m e else magnitude m e)"

lift_definition number_value :: "number \<Rightarrow> rat option" is ieee_value .

text \<open>
  The double of value \<open>m * 2^e\<close>, negated when \<open>neg\<close>, for a mantissa below \<open>2^53\<close>:
  the mantissa is shifted into place. Where \<open>m * 2^e\<close> is not a double written this
  way the result is not a number.
\<close>

function normalise :: "int \<Rightarrow> int \<Rightarrow> int \<times> int" where
  "normalise m e =
     (if 0 < m \<and> m < 2 ^ 52 \<and> - 1074 < e then normalise (2 * m) (e - 1) else (m, e))"
  by pat_completeness auto
termination
  by (relation "measure (\<lambda>(m, e). nat (e + 1074))") auto

declare normalise.simps [simp del]

definition dyadic_ieee :: "bool \<Rightarrow> int \<Rightarrow> int \<Rightarrow> ieee" where
  "dyadic_ieee neg m e =
     (if m = 0 then Finite neg 0 (- 1074)
      else (case normalise m e of
              (m', e') \<Rightarrow> if is_double (Finite neg m' e') then Finite neg m' e' else NaN))"

lift_definition dyadic :: "bool \<Rightarrow> int \<Rightarrow> int \<Rightarrow> number" is dyadic_ieee
  by (simp add: dyadic_ieee_def split: prod.split)

text \<open>The double of a whole number of magnitude below \<open>2^53\<close>.\<close>

definition int_number :: "int \<Rightarrow> number" where
  "int_number i = dyadic (i < 0) \<bar>i\<bar> 0"

subsection \<open>The string of a number\<close>

text \<open>
  \<open>Number::toString\<close>: the shortest decimal numeral \<open>s * 10^(n - k)\<close>, of \<open>k\<close> digits,
  that reads back as the same double; of two such numerals the one nearer to the
  double, of two equally near the even one. A decimal reads back as the double when it
  lies between the midpoints to the double's neighbours; a midpoint itself goes to the
  neighbour with the even mantissa.
\<close>

definition lower_bound :: "int \<Rightarrow> int \<Rightarrow> rat" where
  "lower_bound m e =
     (if m = 2 ^ 52 \<and> - 1074 < e then magnitude (4 * m - 1) (e - 2)
      else magnitude (2 * m - 1) (e - 1))"

definition upper_bound :: "int \<Rightarrow> int \<Rightarrow> rat" where
  "upper_bound m e = magnitude (2 * m + 1) (e - 1)"

definition rounds_to :: "int \<Rightarrow> int \<Rightarrow> rat \<Rightarrow> bool" where
  "rounds_to m e v =
     (if lower_bound m e < v \<and> v < upper_bound m e then True
      else even m \<and> (v = lower_bound m e \<or> v = upper_bound m e))"

text \<open>The \<open>n\<close> with \<open>10^(n - 1) \<le> x < 10^n\<close>, for a positive double \<open>x\<close>.\<close>

function exponent_up :: "rat \<Rightarrow> int \<Rightarrow> int" where
  "exponent_up x n = (if x < pow 10 n \<or> 400 \<le> n then n else exponent_up x (n + 1))"
  by pat_completeness auto
termination
  by (relation "measure (\<lambda>(x, n). nat (400 - n))") auto

declare exponent_up.simps [simp del]

function exponent_down :: "rat \<Rightarrow> int \<Rightarrow> int" where
  "exponent_down x n =
     (if pow 10 (n - 1) \<le> x \<or> n \<le> - 400 then n else exponent_down x (n - 1))"
  by pat_completeness auto
termination
  by (relation "measure (\<lambda>(x, n). nat (n + 400))") auto

declare exponent_down.simps [simp del]

definition decimal_exponent :: "rat \<Rightarrow> int" where
  "decimal_exponent x = (if 1 \<le> x then exponent_up x 1 else exponent_down x 0)"

text \<open>The \<open>k\<close>-digit numerals next to the double, below and above it.\<close>

definition shortest_at :: "int \<Rightarrow> int \<Rightarrow> int \<Rightarrow> int \<Rightarrow> int option" where
  "shortest_at m e n k =
     (let x = magnitude m e; u = pow 10 (n - k); lo = \<lfloor>x / u\<rfloor>; hi = lo + 1;
          below = x - of_int lo * u; above = of_int hi * u - x
      in if rounds_to m e (of_int lo * u) then
           if rounds_to m e (of_int hi * u) then
             if below < above then Some lo
             else if above < below then Some hi
             else if even lo then Some lo else Some hi
           else Some lo
         else if rounds_to m e (of_int hi * u) then Some hi
         else None)"

text \<open>Seventeen digits are always enough; there the nearest numeral is taken.\<close>

function shortest :: "int \<Rightarrow> int \<Rightarrow> int \<Rightarrow> int \<Rightarrow> int \<times> int" where
  "shortest m e n k =
     (if shortest_at m e n k = None \<and> k < 17 then shortest m e n (k + 1)
      else (case shortest_at m e n k of
              Some s \<Rightarrow> (s, k)
            | None \<Rightarrow> (\<lfloor>magnitude m e / pow 10 (n - k) + 1 / 2\<rfloor>, k)))"
  by pat_completeness auto
termination
  by (relation "measure (\<lambda>(m, e, n, k). nat (17 - k))") auto

declare shortest.simps [simp del]

function digits :: "int \<Rightarrow> string" where
  "digits n =
     (if n < 10 then [''0123456789'' ! nat n]
      else digits (n div 10) @ [''0123456789'' ! nat (n mod 10)])"
  by pat_completeness auto
termination
  by (relation "measure nat") auto

declare digits.simps [simp del]

text \<open>Plain digits up to \<open>10^21\<close>, a decimal point down to \<open>10^-6\<close>, an exponent
  otherwise.\<close>

definition layout :: "string \<Rightarrow> int \<Rightarrow> string" where
  "layout ds n =
     (let k = int (length ds)
      in if k \<le> n \<and> n \<le> 21 then ds @ replicate (nat (n - k)) CHR ''0''
         else if 0 < n \<and> n \<le> 21 then take (nat n) ds @ ''.'' @ drop (nat n) ds
         else if - 6 < n \<and> n \<le> 0 then ''0.'' @ replicate (nat (- n)) CHR ''0'' @ ds
         else (if k = 1 then ds else take 1 ds @ ''.'' @ drop 1 ds)
              @ ''e'' @ (if 0 \<le> n - 1 then ''+'' else ''-'') @ digits \<bar>n - 1\<bar>)"

definition decimal :: "int \<Rightarrow> int \<Rightarrow> string" where
  "decimal m e =
     (let n = decimal_exponent (magnitude m e)
      in case shortest m e n 1 of
           (s, k) \<Rightarrow> if s = 10 ^ nat k then layout ''1'' (n + 1) else layout (digits s) n)"

fun toString :: "ieee \<Rightarrow> string" where
  "toString NaN = ''NaN''"
| "toString (Infinity neg) = (if neg then ''-Infinity'' else ''Infinity'')"
| "toString (Finite neg m e) =
     (if m = 0 then ''0'' else (if neg then ''-'' else []) @ decimal m e)"

lift_definition Number_toString :: "number \<Rightarrow> string" is toString .

subsection \<open>Data\<close>

text \<open>
  \<open>Record<string, number>\<close>: an object with string keys, each bound once, kept in
  property creation order.
\<close>

type_synonym snapshot = "(string, number) alist"

text \<open>
  The body of an HTTP response, and what axios makes of it as \<open>res.data\<close>: the object
  that a JSON body of names and quantities parses to, or, for a body that is not JSON,
  the text itself. The type annotation of line 5 is erased when the program runs, so
  the state cell holds whichever it is given.
\<close>

datatype body = Mapping snapshot | Raw string

text \<open>The request body of line 13, \<open>{ name: "demo", amount: 1 }\<close>.\<close>

record payload =
  name :: string
  amount :: int

datatype http_call = GET string | POST string payload

text \<open>What axios hands back; only \<open>res.data\<close> is ever read (line 9).\<close>

record response =
  data :: body

text \<open>Why a call's promise rejects; the component tells no reason from another.\<close>

datatype failure = NetworkError | BadStatus nat

datatype outcome = Resolved response | Rejected failure

text \<open>
  What the network does with a call, and how axios settles the promise. Lines 8 and 13
  pass no configuration, so the defaults apply: no response rejects, a status outside
  200 to 299 rejects, and any other response resolves, its body parsed when it parses
  and left as text when it does not.
\<close>

datatype http_result = NoResponse | HttpResponse nat body

fun axios_settle :: "http_result \<Rightarrow> outcome" where
  "axios_settle NoResponse = Rejected NetworkError"
| "axios_settle (HttpResponse st b) =
     (if 200 \<le> st \<and> st < 300 then Resolved \<lparr>data = b\<rparr> else Rejected (BadStatus st))"

text \<open>The two suspension points: line 8 inside \<open>fetchStocks\<close>, line 13 inside \<open>addStock\<close>.\<close>

datatype awaiting = FetchStocks_await | AddStock_await

type_synonym deps = "nat list"

record app =
  stocks :: body
  effect_deps :: "deps option"
  calls :: "http_call list"
  pending :: "(nat \<times> awaiting) list"
  unhandled :: "failure list"

text \<open>
  \<open>stocks\<close> is the \<open>useState\<close> cell; \<open>effect_deps\<close> is the dependency array that
  \<open>useEffect\<close> stored at the last commit (\<open>None\<close> before the first); \<open>calls\<close> logs every
  HTTP call in the order issued; \<open>pending\<close> holds, for each call still in flight, its
  position in \<open>calls\<close> and the function suspended on it; \<open>unhandled\<close> collects the
  rejections that escape the async functions, which nothing catches.
\<close>

subsection \<open>The async functions\<close>

definition axios_call :: "http_call \<Rightarrow> awaiting \<Rightarrow> app \<Rightarrow> app" where
  "axios_call c k s =
     s\<lparr>calls := calls s @ [c], pending := pending s @ [(length (calls s), k)]\<rparr>"

definition fetchStocks :: "app \<Rightarrow> app" where
  "fetchStocks s = axios_call (GET ''/v1/stocks'') FetchStocks_await s"

definition addStock :: "app \<Rightarrow> app" where
  "addStock s =
     axios_call (POST ''/v1/stocks'' \<lparr>name = ''demo'', amount = 1\<rparr>) AddStock_await s"

text \<open>
  \<open>useEffect(effect, deps)\<close>: the effect runs after the first commit, and after a later
  one only when the dependency array differs from the stored one.
\<close>

definition useEffect :: "(app \<Rightarrow> app) \<Rightarrow> deps \<Rightarrow> app \<Rightarrow> app" where
  "useEffect effect ds s =
     (if effect_deps s = Some ds then s else effect (s\<lparr>effect_deps := Some ds\<rparr>))"

text \<open>One render and commit of \<open>App\<close>: lines 17 to 19.\<close>

definition commit :: "app \<Rightarrow> app" where
  "commit s = useEffect fetchStocks [] s"

text \<open>Line 5: \<open>useState({})\<close>, nothing issued, nothing committed yet.\<close>

definition initial :: app where
  "initial = \<lparr>stocks = Mapping DAList.empty, effect_deps = None, calls = [], pending = [],
     unhandled = []\<rparr>"

definition mount :: app where
  "mount = commit initial"

text \<open>The state setter stores the value and React renders the component again.\<close>

definition setStocks :: "body \<Rightarrow> app \<Rightarrow> app" where
  "setStocks v s = commit (s\<lparr>stocks := v\<rparr>)"

text \<open>
  Resuming a suspended function with the outcome of its call. A rejection is thrown at
  the \<open>await\<close>: the rest of the function body is skipped and the rejection is unhandled.
\<close>

fun resume :: "awaiting \<Rightarrow> outcome \<Rightarrow> app \<Rightarrow> app" where
  "resume FetchStocks_await (Resolved res) s = setStocks (data res) s"
| "resume FetchStocks_await (Rejected e) s = s\<lparr>unhandled := unhandled s @ [e]\<rparr>"
| "resume AddStock_await (Resolved res) s = fetchStocks s"
| "resume AddStock_await (Rejected e) s = s\<lparr>unhandled := unhandled s @ [e]\<rparr>"

subsection \<open>Events\<close>

text \<open>
  \<open>Click\<close> is the button's \<open>onClick\<close> (line 26); \<open>Settle i out\<close> is the promise of the
  call at position \<open>i\<close> settling with \<open>out\<close>. A promise settles once: a call that is not
  in flight has nothing to resume.
\<close>

datatype event = Click | Settle nat outcome

fun step :: "event \<Rightarrow> app \<Rightarrow> app" where
  "step Click s = addStock s"
| "step (Settle i out) s =
     (case map_of (pending s) i of
        None \<Rightarrow> s
      | Some k \<Rightarrow> resume k out (s\<lparr>pending := filter (\<lambda>p. fst p \<noteq> i) (pending s)\<rparr>))"

fun exec :: "app \<Rightarrow> event list \<Rightarrow> app" where
  "exec s [] = s"
| "exec s (e # es) = exec (step e s) es"

definition run :: "event list \<Rightarrow> app" where
  "run es = exec mount es"

subsection \<open>Rendering\<close>

text \<open>
  \<open>Object.entries\<close> follows the object's own property order: keys that are array
  indices (canonical decimal numerals below \<open>2^32 - 1\<close>) come first, by ascending value,
  then every other key in creation order.
\<close>

definition digit_value :: "char \<Rightarrow> int option" where
  "digit_value c = map_of (zip ''0123456789'' [0, 1, 2, 3, 4, 5, 6, 7, 8, 9]) c"

fun numeral_value :: "int \<Rightarrow> string \<Rightarrow> int option" where
  "numeral_value acc [] = Some acc"
| "numeral_value acc (c # cs) =
     (case digit_value c of
        None \<Rightarrow> None
      | Some d \<Rightarrow> numeral_value (10 * acc + d) cs)"

definition array_index :: "string \<Rightarrow> int option" where
  "array_index k =
     (case k of
        [] \<Rightarrow> None
      | c # cs \<Rightarrow>
          if c = CHR ''0'' \<and> cs \<noteq> [] then None
          else (case numeral_value 0 k of
                  None \<Rightarrow> None
                | Some n \<Rightarrow> if n < 2 ^ 32 - 1 then Some n else None))"

definition Object_keys :: "snapshot \<Rightarrow> string list" where
  "Object_keys obj =
     (let ks = map fst (DAList.impl_of obj)
      in map snd (sort_key fst
           (List.map_filter (\<lambda>k. map_option (\<lambda>n. (n, k)) (array_index k)) ks))
         @ filter (\<lambda>k. array_index k = None) ks)"

definition own_entries :: "snapshot \<Rightarrow> (string \<times> number) list" where
  "own_entries obj =
     List.map_filter (\<lambda>k. map_option (Pair k) (DAList.lookup obj k)) (Object_keys obj)"

text \<open>
  The entries of whatever the state cell holds: of an object its own entries, of a text
  one entry per character, keyed by its position.
\<close>

datatype jsvalue = JNumber number | JString string

fun Object_entries :: "body \<Rightarrow> (string \<times> jsvalue) list" where
  "Object_entries (Mapping obj) = map (\<lambda>(k, v). (k, JNumber v)) (own_entries obj)"
| "Object_entries (Raw t) = map (\<lambda>(i, c). (digits (int i), JString [c])) (enumerate 0 t)"

datatype handler = AddStock_handler

text \<open>A number child is rendered through its string conversion.\<close>

datatype element =
    Str string
  | Num number
  | Elem (tag: string) (className: "string option") (key: "string option")
      (onClick: "handler option") (children: "element list")

fun child :: "jsvalue \<Rightarrow> element" where
  "child (JNumber n) = Num n"
| "child (JString t) = Str t"

text \<open>Lines 32 to 34: one \<open>li\<close> per entry, keyed by the name, with children \<open>k\<close>, \<open>": "\<close>, \<open>v\<close>.\<close>

definition list_item :: "string \<times> jsvalue \<Rightarrow> element" where
  "list_item e =
     (case e of (k, v) \<Rightarrow> Elem ''li'' None (Some k) None [Str k, Str '': '', child v])"

text \<open>Lines 21 to 38: the returned tree depends on \<open>stocks\<close> and on nothing else.\<close>

definition view :: "body \<Rightarrow> element" where
  "view snap =
     Elem ''div'' (Some ''p-4'') None None
       [Elem ''h1'' (Some ''text-xl font-bold mb-2'') None None [Str ''Inventory Dashboard''],
        Elem ''button'' (Some ''px-3 py-1 bg-blue-600 text-white rounded'') None
          (Some AddStock_handler) [Str ''+ Add demo''],
        Elem ''ul'' (Some ''mt-4 space-y-1'') None None
          (map list_item (Object_entries snap))]"

definition render :: "app \<Rightarrow> element" where
  "render s = view (stocks s)"

fun textContent :: "element \<Rightarrow> string" where
  "textContent (Str t) = t"
| "textContent (Num n) = Number_toString n"
| "textContent (Elem t c k h cs) = concat (map textContent cs)"

text \<open>The elements with a given tag, in document order.\<close>

fun by_tag :: "string \<Rightarrow> element \<Rightarrow> element list" where
  "by_tag t (Str x) = []"
| "by_tag t (Num n) = []"
| "by_tag t (Elem tg c k h cs) =
     (if tg = t then [Elem tg c k h cs] else []) @ concat (map (by_tag t) cs)"

definition list_entries :: "element \<Rightarrow> string list" where
  "list_entries el = map textContent (by_tag ''li'' el)"

subsection \<open>Histories\<close>

text \<open>Whether an event is a List call resolving: the call at that position is in flight
  with \<open>fetchStocks\<close> suspended on it, and its promise resolves.\<close>

fun list_resolves :: "app \<Rightarrow> event \<Rightarrow> bool" where
  "list_resolves s Click = False"
| "list_resolves s (Settle i (Rejected e)) = False"
| "list_resolves s (Settle i (Resolved res)) = (map_of (pending s) i = Some FetchStocks_await)"

text \<open>A history, started in state \<open>s\<close>, in which no List call resolves.\<close>

fun no_list_resolved :: "app \<Rightarrow> event list \<Rightarrow> bool" where
  "no_list_resolved s [] = True"
| "no_list_resolved s (e # es) =
     (if list_resolves s e then False else no_list_resolved (step e s) es)"

fun is_Click :: "event \<Rightarrow> bool" where
  "is_Click Click = True"
| "is_Click (Settle i out) = False"

text \<open>Every call in flight has a position in the log.\<close>

definition in_flight_logged :: "app \<Rightarrow> bool" where
  "in_flight_logged s = list_all (\<lambda>p. fst p < length (calls s)) (pending s)"

subsection \<open>Sample data\<close>

definition pears :: snapshot where
  "pears = DAList.update ''pears'' (int_number 9) DAList.empty"

definition fruit :: snapshot where
  "fruit = DAList.update ''bananas'' (int_number 5)
     (DAList.update ''apples'' (int_number 3) DAList.empty)"

text \<open>A history after which the snapshot is \<open>pears\<close> and a List call, number 2, is in
  flight: the first read resolves, the button is clicked, the write resolves.\<close>

definition refreshing :: app where
  "refreshing = run [Settle 0 (Resolved \<lparr>data = Mapping pears\<rparr>), Click,
     Settle 1 (Resolved \<lparr>data = Mapping DAList.empty\<rparr>)]"

text \<open>The snapshot is \<open>pears\<close>, the button has been clicked and the write, call number 1,
  is in flight.\<close>

definition writing :: app where
  "writing = run [Settle 0 (Resolved \<lparr>data = Mapping pears\<rparr>), Click]"

text \<open>Two clicks whose refreshing reads are calls 3 and 4; call 4 resolves first.\<close>

definition overlapping :: "event list" where
  "overlapping = [Click, Click, Settle 1 (Resolved \<lparr>data = Mapping DAList.empty\<rparr>),
     Settle 2 (Resolved \<lparr>data = Mapping DAList.empty\<rparr>),
     Settle 4 (Resolved \<lparr>data = Mapping fruit\<rparr>), Settle 0 (Rejected NetworkError)]"

text \<open>Keys created in the order \<open>a\<close>, \<open>01\<close>, \<open>2\<close>, \<open>b\<close>, \<open>10\<close>, bound to 1.5, 0, 7, -120
  and \<open>10^21\<close>, which is \<open>5^21 * 2^21\<close>.\<close>

definition shelf :: snapshot where
  "shelf = DAList.update ''10'' (dyadic False 476837158203125 21)
     (DAList.update ''b'' (int_number (- 120)) (DAList.update ''2'' (int_number 7)
     (DAList.update ''01'' (int_number 0)
     (DAList.update ''a'' (dyadic False 3 (- 1)) DAList.empty))))"

section \<open>Basic facts\<close>

lemma axios_call_fields:
  "stocks (axios_call c k s) = stocks s"
  "effect_deps (axios_call c k s) = effect_deps s"
  "calls (axios_call c k s) = calls s @ [c]"
  "pending (axios_call c k s) = pending s @ [(length (calls s), k)]"
  "unhandled (axios_call c k s) = unhandled s"
  by (simp_all add: axios_call_def)

lemma commit_mounted: "effect_deps s = Some [] \<Longrightarrow> commit s = s"
  by (simp add: commit_def useEffect_def)

lemma setStocks_mounted: "effect_deps s = Some [] \<Longrightarrow> setStocks v s = s\<lparr>stocks := v\<rparr>"
  by (simp add: setStocks_def commit_def useEffect_def)

lemma stocks_setStocks: "stocks (setStocks v s) = v"
  by (simp add: setStocks_def commit_def useEffect_def fetchStocks_def axios_call_fields)

lemma effect_deps_setStocks: "effect_deps (setStocks v s) = Some []"
  by (simp add: setStocks_def commit_def useEffect_def fetchStocks_def axios_call_fields)

lemma exec_append: "exec s (xs @ ys) = exec (exec s xs) ys"
  by (induction xs arbitrary: s) simp_all

lemma mount_eq:
  "mount = \<lparr>stocks = Mapping DAList.empty, effect_deps = Some [], calls = [GET ''/v1/stocks''],
     pending = [(0, FetchStocks_await)], unhandled = []\<rparr>"
  by (simp add: mount_def initial_def commit_def useEffect_def fetchStocks_def axios_call_def)

lemma refreshing_eq:
  "refreshing = \<lparr>stocks = Mapping pears, effect_deps = Some [],
     calls = [GET ''/v1/stocks'', POST ''/v1/stocks'' \<lparr>name = ''demo'', amount = 1\<rparr>,
       GET ''/v1/stocks''],
     pending = [(2, FetchStocks_await)], unhandled = []\<rparr>"
  by (simp add: refreshing_def run_def mount_eq setStocks_mounted fetchStocks_def
      addStock_def axios_call_def)

lemma writing_eq:
  "writing = \<lparr>stocks = Mapping pears, effect_deps = Some [],
     calls = [GET ''/v1/stocks'', POST ''/v1/stocks'' \<lparr>name = ''demo'', amount = 1\<rparr>],
     pending = [(1, AddStock_await)], unhandled = []\<rparr>"
  by (simp add: writing_def run_def mount_eq setStocks_mounted addStock_def axios_call_def)

lemma overlapping_eq:
  "exec mount overlapping = \<lparr>stocks = Mapping fruit, effect_deps = Some [],
     calls = [GET ''/v1/stocks'', POST ''/v1/stocks'' \<lparr>name = ''demo'', amount = 1\<rparr>,
       POST ''/v1/stocks'' \<lparr>name = ''demo'', amount = 1\<rparr>, GET ''/v1/stocks'',
       GET ''/v1/stocks''],
     pending = [(3, FetchStocks_await)], unhandled = [NetworkError]\<rparr>"
  by (simp add: overlapping_def mount_eq setStocks_mounted fetchStocks_def
      addStock_def axios_call_def)

lemma map_of_filter_fst: "map_of (filter (\<lambda>p. fst p \<noteq> i) ps) i = None"
  by (induction ps) auto

subsection \<open>Once mounted, always mounted\<close>

lemma effect_deps_resume:
  "effect_deps s = Some [] \<Longrightarrow> effect_deps (resume k out s) = Some []"
  by (cases k; cases out) (simp_all add: effect_deps_setStocks fetchStocks_def axios_call_fields)

lemma effect_deps_step: "effect_deps s = Some [] \<Longrightarrow> effect_deps (step e s) = Some []"
  by (cases e)
    (simp_all add: addStock_def axios_call_fields effect_deps_resume split: option.split)

lemma effect_deps_exec: "effect_deps s = Some [] \<Longrightarrow> effect_deps (exec s es) = Some []"
  by (induction es arbitrary: s) (simp_all add: effect_deps_step)

lemma effect_deps_mount: "effect_deps mount = Some []"
  by (simp add: mount_eq)

lemma effect_deps_run: "effect_deps (run es) = Some []"
  by (simp add: run_def effect_deps_exec effect_deps_mount)

subsection \<open>Calls in flight are logged\<close>

lemma in_flight_axios_call: "in_flight_logged s \<Longrightarrow> in_flight_logged (axios_call c k s)"
  by (auto simp: in_flight_logged_def axios_call_fields list_all_iff)

lemma in_flight_filter:
  "in_flight_logged s \<Longrightarrow> in_flight_logged (s\<lparr>pending := filter P (pending s)\<rparr>)"
  by (auto simp: in_flight_logged_def list_all_iff)

lemma in_flight_resume:
  "effect_deps s = Some [] \<Longrightarrow> in_flight_logged s \<Longrightarrow> in_flight_logged (resume k out s)"
  by (cases k; cases out)
    (simp_all add: setStocks_mounted fetchStocks_def in_flight_axios_call,
      simp_all add: in_flight_logged_def)

lemma in_flight_step:
  "effect_deps s = Some [] \<Longrightarrow> in_flight_logged s \<Longrightarrow> in_flight_logged (step e s)"
  by (cases e)
    (simp_all add: addStock_def in_flight_axios_call in_flight_resume in_flight_filter
      split: option.split)

lemma in_flight_exec:
  "effect_deps s = Some [] \<Longrightarrow> in_flight_logged s \<Longrightarrow> in_flight_logged (exec s es)"
  by (induction es arbitrary: s) (simp_all add: in_flight_step effect_deps_step)

lemma in_flight_mount: "in_flight_logged mount"
  by (simp add: mount_eq in_flight_logged_def)

lemma in_flight_run: "in_flight_logged (run es)"
  by (simp add: run_def in_flight_exec in_flight_mount effect_deps_mount)

lemma fresh_index: "in_flight_logged s \<Longrightarrow> map_of (pending s) (length (calls s)) = None"
  by (force simp: in_flight_logged_def list_all_iff map_of_eq_None_iff)

subsection \<open>Only a resolving List call touches the snapshot\<close>

lemma stocks_quiet_step: "\<not> list_resolves s e \<Longrightarrow> stocks (step e s) = stocks s"
proof (cases e)
  case Click
  then show ?thesis by (simp add: addStock_def axios_call_fields)
next
  case (Settle i out)
  assume q: "\<not> list_resolves s e"
  show ?thesis
  proof (cases "map_of (pending s) i")
    case None
    with Settle show ?thesis by simp
  next
    case (Some k)
    with Settle q show ?thesis
      by (cases k; cases out) (simp_all add: fetchStocks_def axios_call_fields)
  qed
qed

lemma stocks_quiet_exec: "no_list_resolved s es \<Longrightarrow> stocks (exec s es) = stocks s"
proof (induction es arbitrary: s)
  case Nil
  then show ?case by simp
next
  case (Cons e es)
  then show ?case by (simp add: stocks_quiet_step split: if_splits)
qed

subsection \<open>A resumed function does not come back\<close>

lemma pending_resume_bound:
  "effect_deps s = Some [] \<Longrightarrow> i < length (calls s) \<Longrightarrow> map_of (pending s) i = None \<Longrightarrow>
   map_of (pending (resume k out s)) i = None"
  by (cases k; cases out) (simp_all add: setStocks_mounted fetchStocks_def axios_call_fields)

subsection \<open>Without a click nothing is issued\<close>

lemma calls_no_click_step:
  "effect_deps s = Some [] \<Longrightarrow> list_all (\<lambda>p. snd p = FetchStocks_await) (pending s) \<Longrightarrow>
   \<not> is_Click e \<Longrightarrow>
   calls (step e s) = calls s
   \<and> list_all (\<lambda>p. snd p = FetchStocks_await) (pending (step e s))"
proof (cases e)
  case Click
  assume "\<not> is_Click e"
  with Click show ?thesis by simp
next
  case (Settle i out)
  assume m: "effect_deps s = Some []"
    and p: "list_all (\<lambda>p. snd p = FetchStocks_await) (pending s)"
  show ?thesis
  proof (cases "map_of (pending s) i")
    case None
    with Settle p show ?thesis by simp
  next
    case (Some k)
    then have "(i, k) \<in> set (pending s)" by (rule map_of_SomeD)
    with p have k: "k = FetchStocks_await" by (auto simp: list_all_iff)
    from p have "list_all (\<lambda>p. snd p = FetchStocks_await)
        (filter (\<lambda>p. fst p \<noteq> i) (pending s))"
      by (auto simp: list_all_iff)
    with Settle Some k m show ?thesis
      by (cases out) (simp_all add: setStocks_mounted)
  qed
qed

lemma calls_no_click_exec:
  "effect_deps s = Some [] \<Longrightarrow> list_all (\<lambda>p. snd p = FetchStocks_await) (pending s) \<Longrightarrow>
   list_all (\<lambda>e. \<not> is_Click e) es \<Longrightarrow> calls (exec s es) = calls s"
proof (induction es arbitrary: s)
  case Nil
  then show ?case by simp
next
  case (Cons e es)
  from Cons.prems have "calls (step e s) = calls s
      \<and> list_all (\<lambda>p. snd p = FetchStocks_await) (pending (step e s))"
    by (intro calls_no_click_step) simp_all
  moreover from Cons.prems have "effect_deps (step e s) = Some []"
    by (simp add: effect_deps_step)
  ultimately show ?case using Cons.IH [of "step e s"] Cons.prems by simp
qed

lemma list_resolves_calls:
  "effect_deps s = Some [] \<Longrightarrow> list_resolves s ev \<Longrightarrow> calls (step ev s) = calls s"
  by (cases "(s, ev)" rule: list_resolves.cases) (simp_all add: setStocks_mounted)

subsection \<open>The enumeration of an object's keys\<close>

lemma index_keys_filter:
  "map snd (List.map_filter (\<lambda>k. map_option (\<lambda>n. (n, k)) (array_index k)) ks)
     = filter (\<lambda>k. array_index k \<noteq> None) ks"
  by (induction ks) (auto simp: List.map_filter_simps split: option.split)

lemma mset_Object_keys: "mset (Object_keys obj) = mset (map fst (DAList.impl_of obj))"
proof -
  let ?ks = "map fst (DAList.impl_of obj)"
  let ?ps = "List.map_filter (\<lambda>k. map_option (\<lambda>n. (n, k)) (array_index k)) ?ks"
  have keys: "Object_keys obj
      = map snd (sort_key fst ?ps) @ filter (\<lambda>k. array_index k = None) ?ks"
    by (simp add: Object_keys_def Let_def)
  have "mset (map snd (sort_key fst ?ps)) = mset (map snd ?ps)"
    by simp
  also have "\<dots> = mset (filter (\<lambda>k. array_index k \<noteq> None) ?ks)"
    by (simp only: index_keys_filter)
  finally have "mset (Object_keys obj)
      = mset (filter (\<lambda>k. array_index k \<noteq> None) ?ks)
        + mset (filter (\<lambda>k. \<not> array_index k \<noteq> None) ?ks)"
    by (simp only: keys mset_append not_not)
  also have "\<dots> = mset ?ks"
    by (simp only: mset_filter multiset_partition [symmetric])
  finally show ?thesis .
qed

lemma distinct_Object_keys: "distinct (Object_keys obj)"
proof -
  have "distinct (map fst (DAList.impl_of obj))" by simp
  with mset_Object_keys [of obj] show ?thesis
    by (metis mset_eq_imp_distinct_iff)
qed

lemma set_Object_keys: "set (Object_keys obj) = fst ` set (DAList.impl_of obj)"
proof -
  from mset_Object_keys [of obj]
  have "set (Object_keys obj) = set (map fst (DAList.impl_of obj))"
    by (rule mset_eq_setD)
  then show ?thesis by simp
qed

lemma entries_of_keys:
  "set ks \<subseteq> dom m \<Longrightarrow> map fst (List.map_filter (\<lambda>k. map_option (Pair k) (m k)) ks) = ks"
  by (induction ks) (auto simp: List.map_filter_simps)

lemma map_of_entries:
  "map_of (List.map_filter (\<lambda>k. map_option (Pair k) (m k)) ks) k
     = (if k \<in> set ks then m k else None)"
  by (induction ks) (auto simp: List.map_filter_simps split: option.split)

lemma dom_lookup: "dom (DAList.lookup obj) = fst ` set (DAList.impl_of obj)"
  by (simp add: DAList.lookup.rep_eq dom_map_of_conv_image_fst)

lemma keys_own_entries: "map fst (own_entries obj) = Object_keys obj"
  unfolding own_entries_def
  by (rule entries_of_keys) (simp add: set_Object_keys dom_lookup)

lemma map_of_own_entries: "map_of (own_entries obj) = DAList.lookup obj"
proof
  fix k
  show "map_of (own_entries obj) k = DAList.lookup obj k"
  proof (cases "k \<in> set (Object_keys obj)")
    case True
    then show ?thesis by (simp add: own_entries_def map_of_entries)
  next
    case False
    then have "k \<notin> dom (DAList.lookup obj)" by (simp add: set_Object_keys dom_lookup)
    then have "DAList.lookup obj k = None" by auto
    with False show ?thesis by (simp add: own_entries_def map_of_entries)
  qed
qed

lemma length_own_entries: "length (own_entries obj) = length (DAList.impl_of obj)"
proof -
  have "length (own_entries obj) = length (map fst (own_entries obj))"
    by simp
  also have "\<dots> = size (mset (Object_keys obj))"
    by (simp only: keys_own_entries size_mset)
  also have "\<dots> = length (DAList.impl_of obj)"
    by (simp only: mset_Object_keys size_mset length_map)
  finally show ?thesis .
qed

subsection \<open>The order of the keys\<close>

lemma index_pairs:
  "\<forall>p \<in> set (List.map_filter (\<lambda>k. map_option (\<lambda>n. (n, k)) (array_index k)) ks).
     array_index (snd p) = Some (fst p)"
  by (induction ks) (auto simp: List.map_filter_simps split: option.splits)

lemma index_pairs_sorted:
  "\<forall>p \<in> set (sort_key fst
       (List.map_filter (\<lambda>k. map_option (\<lambda>n. (n, k)) (array_index k)) ks)).
     array_index (snd p) = Some (fst p)"
  using index_pairs [of ks] by simp

lemma filter_none_indexed:
  "\<forall>p \<in> set ps. array_index (snd p) = Some (fst p) \<Longrightarrow>
   filter (\<lambda>k. array_index k = None) (map snd ps) = []"
  by (induction ps) auto

lemma filter_some_indexed:
  "\<forall>p \<in> set ps. array_index (snd p) = Some (fst p) \<Longrightarrow>
   filter (\<lambda>k. array_index k \<noteq> None) (map snd ps) = map snd ps"
  by (induction ps) auto

lemma values_indexed:
  "\<forall>p \<in> set ps. array_index (snd p) = Some (fst p) \<Longrightarrow>
   List.map_filter array_index (map snd ps) = map fst ps"
  by (induction ps) (auto simp: List.map_filter_simps)

lemma map_filter_none: "List.map_filter f (filter (\<lambda>k. f k = None) ks) = []"
  by (induction ks) (auto simp: List.map_filter_simps)

lemma map_filter_append: "List.map_filter f (xs @ ys) = List.map_filter f xs @ List.map_filter f ys"
  by (simp add: List.map_filter_def)

lemma filter_index_none:
  "filter (\<lambda>k. array_index k \<noteq> None) (filter (\<lambda>k. array_index k = None) ks) = []"
  by (induction ks) auto

lemma names_in_creation_order:
  "filter (\<lambda>k. array_index k = None) (Object_keys obj)
     = filter (\<lambda>k. array_index k = None) (map fst (DAList.impl_of obj))"
  by (simp add: Object_keys_def Let_def filter_none_indexed index_pairs_sorted)

lemma indices_first:
  "filter (\<lambda>k. array_index k \<noteq> None) (Object_keys obj)
     @ filter (\<lambda>k. array_index k = None) (Object_keys obj) = Object_keys obj"
proof -
  let ?ks = "map fst (DAList.impl_of obj)"
  let ?ps = "sort_key fst
    (List.map_filter (\<lambda>k. map_option (\<lambda>n. (n, k)) (array_index k)) ?ks)"
  let ?names = "filter (\<lambda>k. array_index k = None) ?ks"
  have keys: "Object_keys obj = map snd ?ps @ ?names"
    by (simp add: Object_keys_def Let_def)
  have a: "filter (\<lambda>k. array_index k \<noteq> None) (map snd ?ps) = map snd ?ps"
    by (rule filter_some_indexed) (rule index_pairs_sorted)
  have b: "filter (\<lambda>k. array_index k = None) (map snd ?ps) = []"
    by (rule filter_none_indexed) (rule index_pairs_sorted)
  have c: "filter (\<lambda>k. array_index k \<noteq> None) ?names = []"
    by (rule filter_index_none)
  have d: "filter (\<lambda>k. array_index k = None) ?names = ?names"
    by simp
  show ?thesis
    unfolding keys filter_append a b c d by simp
qed

lemma indices_ascending: "sorted (List.map_filter array_index (Object_keys obj))"
proof -
  let ?ks = "map fst (DAList.impl_of obj)"
  let ?ps = "sort_key fst
    (List.map_filter (\<lambda>k. map_option (\<lambda>n. (n, k)) (array_index k)) ?ks)"
  have keys: "Object_keys obj = map snd ?ps @ filter (\<lambda>k. array_index k = None) ?ks"
    by (simp add: Object_keys_def Let_def)
  have "List.map_filter array_index (map snd ?ps) = map fst ?ps"
    by (rule values_indexed) (rule index_pairs_sorted)
  then have "List.map_filter array_index (Object_keys obj) = map fst ?ps"
    unfolding keys map_filter_append map_filter_none by simp
  then show ?thesis by simp
qed

subsection \<open>The rendered list\<close>

lemma by_tag_child: "by_tag t (child v) = []"
  by (cases v) simp_all

lemma by_tag_items: "concat (map (by_tag ''li'') (map list_item es)) = map list_item es"
  by (induction es) (auto simp: list_item_def by_tag_child)

lemma by_tag_view: "by_tag ''li'' (view b) = map list_item (Object_entries b)"
  by (simp add: view_def by_tag_items del: map_map)

lemma list_entries_view:
  "list_entries (view (Mapping snap))
     = map (\<lambda>(k, v). k @ '': '' @ Number_toString v) (own_entries snap)"
  by (simp add: list_entries_def by_tag_view list_item_def split_def)

subsection \<open>Evaluating the string of a number\<close>

lemma floor_rat_numeral: "\<lfloor>numeral a / numeral b :: rat\<rfloor> = numeral a div numeral b"
  by (metis floor_divide_of_int_eq of_int_numeral)

lemmas number_eval = int_number_def Number_toString.rep_eq number_value.rep_eq dyadic.rep_eq
  dyadic_ieee_def normalise.simps decimal_def decimal_exponent_def exponent_up.simps
  exponent_down.simps shortest.simps shortest_at_def rounds_to_def lower_bound_def
  upper_bound_def magnitude_def pow_def layout_def digits.simps Let_def floor_rat_numeral

lemmas object_eval = own_entries_def Object_keys_def
  DAList.update.rep_eq DAList.empty.rep_eq DAList.lookup.rep_eq array_index_def
  digit_value_def

lemma sample_values:
  "number_value (int_number 9) = Some 9"
  "number_value (int_number (- 120)) = Some (- 120)"
  "number_value (dyadic False 3 (- 1)) = Some (3 / 2)"
  "number_value (dyadic False 476837158203125 21) = Some (10 ^ 21)"
  by (simp_all add: number_eval)

lemma sample_strings:
  "Number_toString (int_number 0) = ''0''"
  "Number_toString (int_number 7) = ''7''"
  "Number_toString (int_number (- 120)) = ''-120''"
  "Number_toString (dyadic False 3 (- 1)) = ''1.5''"
  "Number_toString (dyadic False 476837158203125 21) = ''1e+21''"
  by (simp_all add: number_eval)

lemma shelf_keys: "Object_keys shelf = [''2'', ''10'', ''a'', ''01'', ''b'']"
  by (simp add: shelf_def object_eval)

lemma shelf_own_entries:
  "own_entries shelf = [(''2'', int_number 7), (''10'', dyadic False 476837158203125 21),
     (''a'', dyadic False 3 (- 1)), (''01'', int_number 0), (''b'', int_number (- 120))]"
  by (simp add: own_entries_def shelf_keys) (simp add: shelf_def object_eval)

lemma shelf_entries:
  "list_entries (view (Mapping shelf)) = [''2: 7'', ''10: 1e+21'', ''a: 1.5'', ''01: 0'', ''b: -120'']"
  by (simp add: list_entries_view shelf_own_entries sample_strings)

section \<open>The claims\<close>

text \<open>
  C1. When a List call resolves, the snapshot afterwards is exactly the response body,
  whatever the snapshot was before: the old value is replaced, not merged.
\<close>

theorem list_success_replaces_snapshot:
  "map_of (pending s) i = Some FetchStocks_await \<Longrightarrow>
   stocks (step (Settle i (Resolved res)) s) = data res"
  by (simp add: stocks_setStocks)

theorem list_success_replaces_snapshot_witness:
  "map_of (pending refreshing) 2 = Some FetchStocks_await
   \<and> stocks refreshing = Mapping pears
   \<and> stocks (step (Settle 2 (Resolved \<lparr>data = Mapping fruit\<rparr>)) refreshing) = Mapping fruit"
proof -
  have p: "map_of (pending refreshing) 2 = Some FetchStocks_await"
    by (simp add: refreshing_eq)
  have q: "stocks refreshing = Mapping pears"
    by (simp add: refreshing_eq)
  have r: "data \<lparr>data = Mapping fruit\<rparr> = Mapping fruit"
    by simp
  from list_success_replaces_snapshot [OF p, of "\<lparr>data = Mapping fruit\<rparr>"]
  show ?thesis unfolding r using p q by blast
qed

text \<open>
  C2, as stated: every activation of the create action issues the write and then one
  read, whatever the write's outcome. It fails when the write is rejected: after mounting,
  a click whose write (call 1) is rejected adds the \<open>POST\<close> to the log and nothing else.
\<close>

theorem create_read_regardless_counterexample:
  "calls (run [Click, Settle 1 (Rejected NetworkError)])
     = calls (run []) @ [POST ''/v1/stocks'' \<lparr>name = ''demo'', amount = 1\<rparr>]
   \<and> calls (run [Click, Settle 1 (Rejected NetworkError)])
     \<noteq> calls (run []) @ [POST ''/v1/stocks'' \<lparr>name = ''demo'', amount = 1\<rparr>,
           GET ''/v1/stocks'']"
  by (simp add: run_def mount_eq addStock_def axios_call_def)

text \<open>
  C2, amended: every activation of the create action issues exactly one write call with
  the payload \<open>{name: "demo", amount: 1}\<close> and suspends on it; when that write resolves,
  exactly one read call is issued; when it is rejected, none is; either way the activation
  is over and issues nothing later.
\<close>

theorem create_write_then_read_on_success:
  "map_of (pending (run es)) i = Some AddStock_await \<Longrightarrow>
   calls (step Click (run es0))
     = calls (run es0) @ [POST ''/v1/stocks'' \<lparr>name = ''demo'', amount = 1\<rparr>]
   \<and> map_of (pending (step Click (run es0))) (length (calls (run es0))) = Some AddStock_await
   \<and> calls (step (Settle i (Resolved res)) (run es)) = calls (run es) @ [GET ''/v1/stocks'']
   \<and> calls (step (Settle i (Rejected e)) (run es)) = calls (run es)
   \<and> map_of (pending (step (Settle i out) (run es))) i = None"
proof -
  assume a: "map_of (pending (run es)) i = Some AddStock_await"
  have fresh: "map_of (pending (run es0)) (length (calls (run es0))) = None"
    by (rule fresh_index) (rule in_flight_run)
  have c1: "calls (step Click (run es0))
      = calls (run es0) @ [POST ''/v1/stocks'' \<lparr>name = ''demo'', amount = 1\<rparr>]"
    by (simp add: addStock_def axios_call_fields)
  have c2: "map_of (pending (step Click (run es0))) (length (calls (run es0)))
      = Some AddStock_await"
    using fresh by (simp add: addStock_def axios_call_fields map_add_def)
  have c3: "calls (step (Settle i (Resolved res)) (run es))
      = calls (run es) @ [GET ''/v1/stocks'']"
    using a by (simp add: fetchStocks_def axios_call_fields)
  have c4: "calls (step (Settle i (Rejected e)) (run es)) = calls (run es)"
    using a by simp
  have "(i, AddStock_await) \<in> set (pending (run es))"
    using a by (rule map_of_SomeD)
  with in_flight_run [of es] have lt: "i < length (calls (run es))"
    by (auto simp: in_flight_logged_def list_all_iff)
  let ?t = "(run es)\<lparr>pending := filter (\<lambda>p. fst p \<noteq> i) (pending (run es))\<rparr>"
  have "map_of (pending (resume AddStock_await out ?t)) i = None"
    by (rule pending_resume_bound) (simp_all add: effect_deps_run lt map_of_filter_fst)
  with a have c5: "map_of (pending (step (Settle i out) (run es))) i = None"
    by simp
  from c1 c2 c3 c4 c5 show ?thesis by blast
qed

theorem create_write_then_read_on_success_witness:
  "map_of (pending writing) 1 = Some AddStock_await
   \<and> calls (step Click (run []))
       = [GET ''/v1/stocks'', POST ''/v1/stocks'' \<lparr>name = ''demo'', amount = 1\<rparr>]
   \<and> calls (step (Settle 1 (Resolved \<lparr>data = Mapping fruit\<rparr>)) writing)
       = [GET ''/v1/stocks'', POST ''/v1/stocks'' \<lparr>name = ''demo'', amount = 1\<rparr>,
          GET ''/v1/stocks'']
   \<and> calls (step (Settle 1 (Rejected (BadStatus 500))) writing)
       = [GET ''/v1/stocks'', POST ''/v1/stocks'' \<lparr>name = ''demo'', amount = 1\<rparr>]"
proof -
  have w: "writing = run [Settle 0 (Resolved \<lparr>data = Mapping pears\<rparr>), Click]"
    by (rule writing_def)
  have p: "map_of (pending (run [Settle 0 (Resolved \<lparr>data = Mapping pears\<rparr>), Click])) 1
      = Some AddStock_await"
    unfolding w [symmetric] by (simp add: writing_eq)
  have c: "calls writing
      = [GET ''/v1/stocks'', POST ''/v1/stocks'' \<lparr>name = ''demo'', amount = 1\<rparr>]"
    by (simp add: writing_eq)
  have m: "calls (run []) = [GET ''/v1/stocks'']"
    by (simp add: run_def mount_eq)
  from create_write_then_read_on_success
    [OF p, of "[]" "\<lparr>data = Mapping fruit\<rparr>" "BadStatus 500" "Rejected NetworkError"]
  show ?thesis unfolding w [symmetric] c m using p [unfolded w [symmetric]] by simp
qed

text \<open>
  C3, as stated: a List call that fails, by a network error, by a status outside 200 to
  299 or by a malformed body, leaves the snapshot as it was. It fails for the malformed
  body: a response of status 200 whose body is not JSON resolves with the text as
  \<open>res.data\<close>, line 9 stores it, and the list shows one entry per character.
\<close>

theorem list_malformed_body_counterexample:
  "map_of (pending refreshing) 2 = Some FetchStocks_await
   \<and> stocks refreshing = Mapping pears
   \<and> stocks (step (Settle 2 (axios_settle (HttpResponse 200 (Raw ''oops'')))) refreshing)
       = Raw ''oops''
   \<and> stocks (step (Settle 2 (axios_settle (HttpResponse 200 (Raw ''oops'')))) refreshing)
       \<noteq> stocks refreshing
   \<and> list_entries
         (render (step (Settle 2 (axios_settle (HttpResponse 200 (Raw ''oops'')))) refreshing))
       = [''0: o'', ''1: o'', ''2: p'', ''3: s'']"
  by (simp add: refreshing_eq setStocks_mounted render_def list_entries_def by_tag_view
      list_item_def enumerate_eq_zip digits.simps)

text \<open>
  C3, amended: a List call whose promise rejects, as it does when there is no response
  or when the status is outside 200 to 299, leaves the snapshot as it was; the rendered
  tree is the same and no call is issued.
\<close>

theorem list_rejection_keeps_snapshot:
  "map_of (pending s) i = Some FetchStocks_await \<Longrightarrow> st < 200 \<or> 300 \<le> st \<Longrightarrow>
   stocks (step (Settle i (Rejected e)) s) = stocks s
   \<and> render (step (Settle i (Rejected e)) s) = render s
   \<and> calls (step (Settle i (Rejected e)) s) = calls s
   \<and> stocks (step (Settle i (axios_settle NoResponse)) s) = stocks s
   \<and> stocks (step (Settle i (axios_settle (HttpResponse st b))) s) = stocks s"
  by (auto simp: render_def)

theorem list_rejection_keeps_snapshot_witness:
  "map_of (pending refreshing) 2 = Some FetchStocks_await
   \<and> stocks (step (Settle 2 (Rejected (BadStatus 404))) refreshing) = Mapping pears
   \<and> stocks (step (Settle 2 (axios_settle NoResponse)) refreshing) = Mapping pears
   \<and> stocks (step (Settle 2 (axios_settle (HttpResponse 500 (Raw ''oops'')))) refreshing)
       = Mapping pears"
proof -
  have p: "map_of (pending refreshing) 2 = Some FetchStocks_await"
    by (simp add: refreshing_eq)
  have q: "stocks refreshing = Mapping pears"
    by (simp add: refreshing_eq)
  have st: "(500::nat) < 200 \<or> 300 \<le> (500::nat)"
    by simp
  from list_rejection_keeps_snapshot [OF p st, of "BadStatus 404" "Raw ''oops''"]
  show ?thesis unfolding q using p by blast
qed

text \<open>
  C4. The snapshot is the empty mapping when the component is initialised, and it stays
  empty through every history after mounting in which no List call has resolved yet.
\<close>

theorem snapshot_empty_before_first_list:
  "no_list_resolved mount es \<Longrightarrow>
   stocks initial = Mapping DAList.empty \<and> stocks (run es) = Mapping DAList.empty"
  by (simp add: run_def stocks_quiet_exec) (simp add: initial_def mount_eq)

theorem snapshot_empty_before_first_list_witness:
  "no_list_resolved mount
     [Click, Settle 0 (Rejected NetworkError), Settle 1 (Resolved \<lparr>data = Mapping pears\<rparr>)]
   \<and> stocks initial = Mapping DAList.empty
   \<and> stocks (run [Click, Settle 0 (Rejected NetworkError),
        Settle 1 (Resolved \<lparr>data = Mapping pears\<rparr>)]) = Mapping DAList.empty"
proof -
  have q: "no_list_resolved mount
     [Click, Settle 0 (Rejected NetworkError), Settle 1 (Resolved \<lparr>data = Mapping pears\<rparr>)]"
    by (simp add: mount_eq addStock_def fetchStocks_def axios_call_def)
  from snapshot_empty_before_first_list [OF q] q show ?thesis by blast
qed

text \<open>
  C5. Mounting the component issues the List read: before the first commit no call has
  been made, after it the log holds the one \<open>GET /v1/stocks\<close>, in flight, and no event
  (no click) has happened.
\<close>

theorem mount_issues_list_read:
  "calls initial = [] \<and> run [] = mount \<and> calls mount = [GET ''/v1/stocks'']
   \<and> pending mount = [(0, FetchStocks_await)]"
  by (simp add: run_def mount_eq) (simp add: initial_def)

text \<open>
  C6. The snapshot that binds \<open>x\<close> to 0 and nothing else is rendered as exactly one list
  entry, with the text \<open>x: 0\<close>; so is the one that binds \<open>x\<close> to the negative zero.
\<close>

theorem render_single_entry:
  "number_value (int_number 0) = Some 0
   \<and> list_entries (view (Mapping (DAList.update ''x'' (int_number 0) DAList.empty)))
       = [''x: 0'']
   \<and> list_entries (view (Mapping (DAList.update ''x'' (dyadic True 0 0) DAList.empty)))
       = [''x: 0'']"
  by (simp add: list_entries_view object_eval number_eval)

text \<open>
  C7. The snapshot at the end of a history is the body of the List response that resolved
  last: whatever happened before it, and whatever the position of its call among the
  calls issued, a resolving List call sets the snapshot to its body, and the events after
  it, none of them a resolving List call, leave it alone. Replacing with \<open>r1\<close> and then
  with \<open>r2\<close> leaves \<open>r2\<close>.
\<close>

theorem last_list_response_wins:
  "list_resolves (exec s es1) (Settle i (Resolved res)) \<Longrightarrow>
   no_list_resolved (step (Settle i (Resolved res)) (exec s es1)) es2 \<Longrightarrow>
   stocks (exec s (es1 @ Settle i (Resolved res) # es2)) = data res
   \<and> stocks (setStocks r2 (setStocks r1 s)) = r2"
proof -
  assume a: "list_resolves (exec s es1) (Settle i (Resolved res))"
    and b: "no_list_resolved (step (Settle i (Resolved res)) (exec s es1)) es2"
  have "stocks (exec s (es1 @ Settle i (Resolved res) # es2))
      = stocks (step (Settle i (Resolved res)) (exec s es1))"
    using b by (simp add: exec_append stocks_quiet_exec)
  also have "\<dots> = data res"
    using a by (simp add: stocks_setStocks)
  finally show ?thesis by (simp add: stocks_setStocks)
qed

text \<open>The read issued second (call 4) resolves first with \<open>fruit\<close>; the read issued
  first (call 3) resolves last with \<open>pears\<close>, and \<open>pears\<close> is what stays.\<close>

theorem last_list_response_wins_witness:
  "list_resolves (exec mount overlapping) (Settle 3 (Resolved \<lparr>data = Mapping pears\<rparr>))
   \<and> no_list_resolved
       (step (Settle 3 (Resolved \<lparr>data = Mapping pears\<rparr>)) (exec mount overlapping)) [Click]
   \<and> stocks (exec mount overlapping) = Mapping fruit
   \<and> stocks (exec mount (overlapping @ Settle 3 (Resolved \<lparr>data = Mapping pears\<rparr>) # [Click]))
       = Mapping pears
   \<and> stocks (setStocks (Mapping fruit) (setStocks (Mapping pears) mount)) = Mapping fruit"
proof -
  have a: "list_resolves (exec mount overlapping) (Settle 3 (Resolved \<lparr>data = Mapping pears\<rparr>))"
    by (simp add: overlapping_eq)
  have b: "no_list_resolved
      (step (Settle 3 (Resolved \<lparr>data = Mapping pears\<rparr>)) (exec mount overlapping)) [Click]"
    by (simp add: overlapping_eq)
  have c: "stocks (exec mount overlapping) = Mapping fruit"
    by (simp add: overlapping_eq)
  have r: "data \<lparr>data = Mapping pears\<rparr> = Mapping pears"
    by simp
  from last_list_response_wins [OF a b, of "Mapping fruit" "Mapping pears"]
  show ?thesis unfolding r using a b c by blast
qed

text \<open>
  C8. When the write of a create action is rejected, the suspended \<open>addStock\<close> ends there:
  the only changes are that the call is no longer in flight and that the rejection is
  recorded as unhandled, so no read is issued and the snapshot is the same. A read is
  issued when the write resolves.
\<close>

theorem create_write_rejected_no_read:
  "map_of (pending s) i = Some AddStock_await \<Longrightarrow>
   step (Settle i (Rejected e)) s
     = s\<lparr>pending := filter (\<lambda>p. fst p \<noteq> i) (pending s), unhandled := unhandled s @ [e]\<rparr>
   \<and> calls (step (Settle i (Rejected e)) s) = calls s
   \<and> stocks (step (Settle i (Rejected e)) s) = stocks s
   \<and> calls (step (Settle i (Resolved res)) s) = calls s @ [GET ''/v1/stocks'']"
  by (simp add: fetchStocks_def axios_call_fields)

theorem create_write_rejected_no_read_witness:
  "map_of (pending writing) 1 = Some AddStock_await
   \<and> calls (step (Settle 1 (Rejected NetworkError)) writing) = calls writing
   \<and> pending (step (Settle 1 (Rejected NetworkError)) writing) = []
   \<and> stocks (step (Settle 1 (Rejected NetworkError)) writing) = Mapping pears"
proof -
  have p: "map_of (pending writing) 1 = Some AddStock_await"
    by (simp add: writing_eq)
  have q: "stocks writing = Mapping pears" and n: "filter (\<lambda>p. fst p \<noteq> 1) (pending writing) = []"
    by (simp_all add: writing_eq)
  from create_write_rejected_no_read [OF p, of NetworkError "\<lparr>data = Mapping fruit\<rparr>"]
  have "step (Settle 1 (Rejected NetworkError)) writing
      = writing\<lparr>pending := [], unhandled := unhandled writing @ [NetworkError]\<rparr>"
    and "calls (step (Settle 1 (Rejected NetworkError)) writing) = calls writing"
    and "stocks (step (Settle 1 (Rejected NetworkError)) writing) = Mapping pears"
    unfolding q n by blast+
  with p show ?thesis by simp
qed

text \<open>
  C9. The automatic read happens once per mount. In a history without clicks the log
  never holds more than the read issued at mounting; rendering the mounted component
  again changes nothing; and a List call that resolves, which replaces the snapshot and
  renders again, issues no call.
\<close>

theorem effect_runs_once_per_mount:
  "list_all (\<lambda>e. \<not> is_Click e) es0 \<Longrightarrow> list_resolves (run es) ev \<Longrightarrow>
   calls (run es0) = [GET ''/v1/stocks'']
   \<and> commit (run es) = run es
   \<and> calls (step ev (run es)) = calls (run es)"
proof -
  assume a: "list_all (\<lambda>e. \<not> is_Click e) es0" and b: "list_resolves (run es) ev"
  have "calls (exec mount es0) = calls mount"
    using a by (intro calls_no_click_exec) (simp_all add: mount_eq)
  then have c1: "calls (run es0) = [GET ''/v1/stocks'']"
    by (simp add: run_def) (simp add: mount_eq)
  have c2: "commit (run es) = run es"
    by (simp add: commit_mounted effect_deps_run)
  have c3: "calls (step ev (run es)) = calls (run es)"
    using b by (simp add: list_resolves_calls effect_deps_run)
  from c1 c2 c3 show ?thesis by blast
qed

theorem effect_runs_once_per_mount_witness:
  "list_all (\<lambda>e. \<not> is_Click e)
     [Settle 0 (Resolved \<lparr>data = Mapping pears\<rparr>), Settle 0 (Resolved \<lparr>data = Mapping fruit\<rparr>),
      Settle 1 (Rejected NetworkError)]
   \<and> list_resolves (run [Click, Settle 1 (Resolved \<lparr>data = Mapping DAList.empty\<rparr>)])
        (Settle 2 (Resolved \<lparr>data = Mapping fruit\<rparr>))
   \<and> calls (run [Settle 0 (Resolved \<lparr>data = Mapping pears\<rparr>), Settle 0 (Resolved \<lparr>data = Mapping fruit\<rparr>),
        Settle 1 (Rejected NetworkError)]) = [GET ''/v1/stocks'']
   \<and> commit (run [Click, Settle 1 (Resolved \<lparr>data = Mapping DAList.empty\<rparr>)])
       = run [Click, Settle 1 (Resolved \<lparr>data = Mapping DAList.empty\<rparr>)]
   \<and> calls (step (Settle 2 (Resolved \<lparr>data = Mapping fruit\<rparr>))
        (run [Click, Settle 1 (Resolved \<lparr>data = Mapping DAList.empty\<rparr>)]))
       = calls (run [Click, Settle 1 (Resolved \<lparr>data = Mapping DAList.empty\<rparr>)])"
proof -
  have a: "list_all (\<lambda>e. \<not> is_Click e)
     [Settle 0 (Resolved \<lparr>data = Mapping pears\<rparr>), Settle 0 (Resolved \<lparr>data = Mapping fruit\<rparr>),
      Settle 1 (Rejected NetworkError)]"
    by simp
  have b: "list_resolves (run [Click, Settle 1 (Resolved \<lparr>data = Mapping DAList.empty\<rparr>)])
        (Settle 2 (Resolved \<lparr>data = Mapping fruit\<rparr>))"
    by (simp add: run_def mount_eq addStock_def fetchStocks_def axios_call_def)
  from effect_runs_once_per_mount [OF a b] a b show ?thesis by blast
qed

text \<open>
  C10. The rendered tree is a function of the snapshot alone: two states with the same
  snapshot, the same object with its keys in the same creation order, render the same
  tree. The list has one entry for each key of the snapshot: for each own entry of the
  object the text \<open>name: quantity\<close>, the quantity as \<open>Number::toString\<close> prints it. The
  entries' names are the object's keys, each once, each with the quantity the snapshot
  binds it to, in enumeration order: the array indices first, by ascending value, then
  the other names in creation order.
\<close>

theorem render_determined_by_snapshot:
  "stocks s = stocks t \<Longrightarrow> stocks s = Mapping snap \<Longrightarrow>
   render s = render t
   \<and> list_entries (render s)
       = map (\<lambda>(k, v). k @ '': '' @ Number_toString v) (own_entries snap)
   \<and> length (list_entries (render s)) = length (DAList.impl_of snap)
   \<and> map fst (own_entries snap) = Object_keys snap
   \<and> map_of (own_entries snap) = DAList.lookup snap
   \<and> distinct (Object_keys snap)
   \<and> set (Object_keys snap) = fst ` set (DAList.impl_of snap)
   \<and> filter (\<lambda>k. array_index k \<noteq> None) (Object_keys snap)
         @ filter (\<lambda>k. array_index k = None) (Object_keys snap) = Object_keys snap
   \<and> sorted (List.map_filter array_index (Object_keys snap))
   \<and> filter (\<lambda>k. array_index k = None) (Object_keys snap)
       = filter (\<lambda>k. array_index k = None) (map fst (DAList.impl_of snap))"
proof -
  assume eq: "stocks s = stocks t" and snap: "stocks s = Mapping snap"
  have c1: "render s = render t"
    using eq by (simp add: render_def)
  have c2: "list_entries (render s)
      = map (\<lambda>(k, v). k @ '': '' @ Number_toString v) (own_entries snap)"
    using snap by (simp add: render_def list_entries_view)
  have c3: "length (list_entries (render s)) = length (DAList.impl_of snap)"
    unfolding c2 by (simp add: length_own_entries)
  note c4 = keys_own_entries [of snap] and c5 = map_of_own_entries [of snap]
    and c6 = distinct_Object_keys [of snap] and c7 = set_Object_keys [of snap]
    and c8 = indices_first [of snap] and c9 = indices_ascending [of snap]
    and c10 = names_in_creation_order [of snap]
  from c1 c2 c3 c4 c5 c6 c7 c8 c9 c10 show ?thesis by blast
qed

theorem render_determined_by_snapshot_witness:
  "stocks (writing\<lparr>stocks := Mapping shelf\<rparr>) = stocks (mount\<lparr>stocks := Mapping shelf\<rparr>)
   \<and> stocks (writing\<lparr>stocks := Mapping shelf\<rparr>) = Mapping shelf
   \<and> render (writing\<lparr>stocks := Mapping shelf\<rparr>) = render (mount\<lparr>stocks := Mapping shelf\<rparr>)
   \<and> list_entries (render (writing\<lparr>stocks := Mapping shelf\<rparr>))
       = [''2: 7'', ''10: 1e+21'', ''a: 1.5'', ''01: 0'', ''b: -120'']"
proof -
  have h: "stocks (writing\<lparr>stocks := Mapping shelf\<rparr>) = stocks (mount\<lparr>stocks := Mapping shelf\<rparr>)"
    by simp
  have g: "stocks (writing\<lparr>stocks := Mapping shelf\<rparr>) = Mapping shelf"
    by simp
  have l: "list_entries (render (writing\<lparr>stocks := Mapping shelf\<rparr>))
      = [''2: 7'', ''10: 1e+21'', ''a: 1.5'', ''01: 0'', ''b: -120'']"
    by (simp add: render_def shelf_entries)
  from render_determined_by_snapshot [OF h g] h g l show ?thesis by blast
qed

end
